theory Spec2Isabelle
  imports Main "HOL-Library.Sublist" "HOL-Library.AList"
begin

section \<open>Python values and exceptions\<close>

text \<open>
  The two modules of the package, \<^verbatim>\<open>fhir_parser/ig.py\<close> and
  \<^verbatim>\<open>fhir_parser/fhirloader.py\<close>, are embedded as pure functions. An exception of
  the Python code is a value \<open>Inl e\<close> of a sum type; a normal return is \<open>Inr v\<close>.
\<close>

datatype error =
    AssertionError
  | KeyError
  | TypeError
  | IndexError
  | ValueError
  | JSONDecodeError
  | OSError
  | BadZipFile
  | PyException string
  | DownloadError

text \<open>
  What \<^verbatim>\<open>json.load\<close> returns: \<^verbatim>\<open>None\<close>, a bool, a number, a string, a list
  or a dict. A dict is the list of its items in insertion order (the keys of a dict are
  distinct). Numbers are integers here; nothing below looks inside a number.
\<close>

datatype json =
    JNull
  | JBool bool
  | JNum int
  | JStr string
  | JArr "json list"
  | JObj "(string \<times> json) list"

text \<open>\<^verbatim>\<open>key in parsed\<close> for a string key: membership in a dict's keys, in a list's
  elements, substring test on a string, \<^verbatim>\<open>TypeError\<close> on anything else.\<close>

fun py_contains :: "string \<Rightarrow> json \<Rightarrow> error + bool" where
  "py_contains k (JObj kvs) = Inr (k \<in> set (map fst kvs))"
| "py_contains k (JArr xs) = Inr (JStr k \<in> set xs)"
| "py_contains k (JStr s) = Inr (sublist k s)"
| "py_contains k JNull = Inl TypeError"
| "py_contains k (JBool b) = Inl TypeError"
| "py_contains k (JNum n) = Inl TypeError"

text \<open>\<^verbatim>\<open>parsed[key]\<close> for a string key: the value of a dict, \<^verbatim>\<open>KeyError\<close> when the
  key is absent, \<^verbatim>\<open>TypeError\<close> on a list, a string and on everything that is not
  subscriptable.\<close>

fun py_getitem :: "json \<Rightarrow> string \<Rightarrow> error + json" where
  "py_getitem (JObj kvs) k = (case map_of kvs k of None \<Rightarrow> Inl KeyError | Some v \<Rightarrow> Inr v)"
| "py_getitem (JArr xs) k = Inl TypeError"
| "py_getitem (JStr s) k = Inl TypeError"
| "py_getitem JNull k = Inl TypeError"
| "py_getitem (JBool b) k = Inl TypeError"
| "py_getitem (JNum n) k = Inl TypeError"

text \<open>\<^verbatim>\<open>for e in v\<close>: the elements of a list, the keys of a dict, the characters of
  a string; \<^verbatim>\<open>TypeError\<close> on a value that is not iterable.\<close>

fun py_iter :: "json \<Rightarrow> error + json list" where
  "py_iter (JArr xs) = Inr xs"
| "py_iter (JObj kvs) = Inr (map (\<lambda>kv. JStr (fst kv)) kvs)"
| "py_iter (JStr s) = Inr (map (\<lambda>c. JStr [c]) s)"
| "py_iter JNull = Inl TypeError"
| "py_iter (JBool b) = Inl TypeError"
| "py_iter (JNum n) = Inl TypeError"

text \<open>The key under which a value is stored in a dict: a list or a dict is unhashable
  (\<^verbatim>\<open>TypeError\<close>), and \<^verbatim>\<open>True\<close> and \<^verbatim>\<open>False\<close> are the keys \<^verbatim>\<open>1\<close> and
  \<^verbatim>\<open>0\<close>.\<close>

fun py_hash_key :: "json \<Rightarrow> error + json" where
  "py_hash_key (JArr xs) = Inl TypeError"
| "py_hash_key (JObj kvs) = Inl TypeError"
| "py_hash_key (JBool b) = Inr (JNum (if b then 1 else 0))"
| "py_hash_key JNull = Inr JNull"
| "py_hash_key (JNum n) = Inr (JNum n)"
| "py_hash_key (JStr s) = Inr (JStr s)"

text \<open>\<^verbatim>\<open>d[key] = v\<close> on a dict kept as its item list: an existing key keeps its
  place and gets the new value, a new key is appended.\<close>

definition dict_set :: "(json \<times> 'v) list \<Rightarrow> json \<Rightarrow> 'v \<Rightarrow> error + (json \<times> 'v) list" where
  "dict_set d key v =
     (case py_hash_key key of Inl e \<Rightarrow> Inl e | Inr k \<Rightarrow> Inr (AList.update k v d))"

text \<open>The results of a loop body run over a list, up to the first exception.\<close>

fun collect :: "(error + 'a) list \<Rightarrow> error + 'a list" where
  "collect [] = Inr []"
| "collect (r # rs) =
     (case r of
        Inl e \<Rightarrow> Inl e
      | Inr x \<Rightarrow> (case collect rs of Inl e \<Rightarrow> Inl e | Inr xs \<Rightarrow> Inr (x # xs)))"

section \<open>ig.py: the resource queue of \<^verbatim>\<open>add_igs_to_spec\<close>\<close>

text \<open>A message of \<^verbatim>\<open>LOGGER\<close>, by the line that writes it: the file without a
  \<^verbatim>\<open>resourceType\<close> (line 39), the \<^verbatim>\<open>url\<close> of the code system without concepts
  (line 59), the unknown \<^verbatim>\<open>resourceType\<close> (line 61), the two counts (line 65).\<close>

datatype diagnostic =
    WarnNoResourceType string
  | WarnNoConcepts json
  | WarnUnknownResourceType json
  | InfoFound nat nat

text \<open>A file of \<^verbatim>\<open>ig_files\<close> as \<^verbatim>\<open>open\<close> and \<^verbatim>\<open>json.load\<close> find it: it cannot
  be opened, it is not JSON, or it parses to a value.\<close>

datatype file_content = Unreadable | Malformed | Parsed json

text \<open>
  The state of \<^verbatim>\<open>add_igs_to_spec\<close>: the two dicts \<^verbatim>\<open>spec.valuesets\<close> and
  \<^verbatim>\<open>spec.codesystems\<close> of the \<^verbatim>\<open>spec\<close> argument, the locals \<^verbatim>\<open>resource_queue\<close>
  (a FIFO queue, head first) and \<^verbatim>\<open>profiles\<close>, and what has been logged. The objects
  \<^verbatim>\<open>FHIRValueSet(spec, parsed)\<close> and \<^verbatim>\<open>FHIRCodeSystem(spec, parsed)\<close> belong to the
  library \<^verbatim>\<open>fhirspec\<close>; the dicts hold the record they are built from.
\<close>

record ig_state =
  valuesets :: "(json \<times> json) list"
  codesystems :: "(json \<times> json) list"
  resource_queue :: "json list"
  profiles :: "json list"
  logged :: "diagnostic list"

text \<open>Lines 35 to 41: every file is opened and parsed; a parsed value without
  \<^verbatim>\<open>resourceType\<close> is warned about and skipped, any other is put on the queue.\<close>

fun enqueue_files :: "(string \<times> file_content) list \<Rightarrow> ig_state \<Rightarrow> error + ig_state" where
  "enqueue_files [] s = Inr s"
| "enqueue_files ((file, c) # rest) s =
     (case c of
        Unreadable \<Rightarrow> Inl OSError
      | Malformed \<Rightarrow> Inl JSONDecodeError
      | Parsed parsed \<Rightarrow>
          (case py_contains ''resourceType'' parsed of
             Inl e \<Rightarrow> Inl e
           | Inr present \<Rightarrow>
               if \<not> present
               then enqueue_files rest (s\<lparr>logged := logged s @ [WarnNoResourceType file]\<rparr>)
               else enqueue_files rest (s\<lparr>resource_queue := resource_queue s @ [parsed]\<rparr>)))"

text \<open>Lines 46 to 48, the body of the \<^verbatim>\<open>Bundle\<close> branch: the records
  \<^verbatim>\<open>e['resource']\<close> of the entries, in order, that are put on the queue.\<close>

definition bundle_resources :: "json \<Rightarrow> error + json list" where
  "bundle_resources parsed =
     (case py_contains ''entry'' parsed of
        Inl e \<Rightarrow> Inl e
      | Inr present \<Rightarrow>
          if present
          then (case py_getitem parsed ''entry'' of
                  Inl e \<Rightarrow> Inl e
                | Inr entry \<Rightarrow>
                    (case py_iter entry of
                       Inl e \<Rightarrow> Inl e
                     | Inr es \<Rightarrow> collect (map (\<lambda>e. py_getitem e ''resource'') es)))
          else Inr [])"

text \<open>Lines 49 to 63, the branches for a record that is not a \<^verbatim>\<open>Bundle\<close>.\<close>

definition classify :: "json \<Rightarrow> json \<Rightarrow> ig_state \<Rightarrow> error + ig_state" where
  "classify resourceType parsed s =
     (if resourceType = JStr ''StructureDefinition''
      then Inr (s\<lparr>profiles := profiles s @ [parsed]\<rparr>)
      else if resourceType = JStr ''ValueSet''
      then (case py_contains ''url'' parsed of
              Inl e \<Rightarrow> Inl e
            | Inr has_url \<Rightarrow>
                if \<not> has_url then Inl AssertionError
                else (case py_getitem parsed ''url'' of
                        Inl e \<Rightarrow> Inl e
                      | Inr url \<Rightarrow>
                          (case dict_set (valuesets s) url parsed of
                             Inl e \<Rightarrow> Inl e
                           | Inr d \<Rightarrow> Inr (s\<lparr>valuesets := d\<rparr>))))
      else if resourceType = JStr ''CodeSystem''
      then (case py_contains ''url'' parsed of
              Inl e \<Rightarrow> Inl e
            | Inr has_url \<Rightarrow>
                if \<not> has_url then Inl AssertionError
                else (case py_contains ''content'' parsed of
                        Inl e \<Rightarrow> Inl e
                      | Inr has_content \<Rightarrow>
                          (case py_contains ''concept'' parsed of
                             Inl e \<Rightarrow> Inl e
                           | Inr has_concept \<Rightarrow>
                               (case py_getitem parsed ''url'' of
                                  Inl e \<Rightarrow> Inl e
                                | Inr url \<Rightarrow>
                                    if has_content \<and> has_concept
                                    then (case dict_set (codesystems s) url parsed of
                                            Inl e \<Rightarrow> Inl e
                                          | Inr d \<Rightarrow> Inr (s\<lparr>codesystems := d\<rparr>))
                                    else Inr (s\<lparr>logged := logged s @ [WarnNoConcepts url]\<rparr>)))))
      else Inr (s\<lparr>logged := logged s @ [WarnUnknownResourceType resourceType]\<rparr>))"

text \<open>Lines 43 to 63: one turn of the \<^verbatim>\<open>while\<close> loop on the record \<^verbatim>\<open>parsed\<close>
  that \<^verbatim>\<open>resource_queue.get()\<close> has taken off the queue.\<close>

definition loop_body :: "json \<Rightarrow> ig_state \<Rightarrow> error + ig_state" where
  "loop_body parsed s =
     (case py_getitem parsed ''resourceType'' of
        Inl e \<Rightarrow> Inl e
      | Inr resourceType \<Rightarrow>
          if resourceType = JStr ''Bundle''
          then (case bundle_resources parsed of
                  Inl e \<Rightarrow> Inl e
                | Inr rs \<Rightarrow> Inr (s\<lparr>resource_queue := resource_queue s @ rs\<rparr>))
          else classify resourceType parsed s)"

text \<open>
  The \<^verbatim>\<open>while\<close> loop of lines 42 to 63 runs until the queue is empty. It
  terminates because every turn takes one record off the queue and puts back only
  records that lie inside it: the sizes of the queued records, each counted once more
  for the record itself, go down.
\<close>

definition queue_weight :: "json list \<Rightarrow> nat" where
  "queue_weight q = sum_list (map (\<lambda>r. Suc (size r)) q)"

lemma queue_weight_simps [simp]:
  "queue_weight [] = 0"
  "queue_weight (r # q) = Suc (size r) + queue_weight q"
  "queue_weight (q @ q') = queue_weight q + queue_weight q'"
  by (simp_all add: queue_weight_def)

lemma map_of_size: "map_of kvs k = Some v \<Longrightarrow> size v < size (JObj kvs)"
  by (induction kvs) (auto split: if_splits)

lemma py_getitem_size: "py_getitem x k = Inr v \<Longrightarrow> size v < size x"
  using map_of_size by (cases x) (auto split: option.splits)

lemma py_iter_size: "py_iter x = Inr es \<Longrightarrow> sum_list (map size es) \<le> size x"
  by (cases x) (auto simp: size_list_conv_sum_list comp_def)

lemma collect_getitem_weight:
  "collect (map (\<lambda>e. py_getitem e k) es) = Inr rs \<Longrightarrow>
     queue_weight rs \<le> sum_list (map size es)"
proof (induction es arbitrary: rs)
  case Nil
  then show ?case by simp
next
  case (Cons e es)
  then show ?case
    by (auto split: sum.splits dest!: py_getitem_size)
qed

lemma bundle_resources_weight:
  "bundle_resources parsed = Inr rs \<Longrightarrow> queue_weight rs \<le> size parsed"
  unfolding bundle_resources_def
  by (auto split: sum.splits if_splits
        dest!: py_getitem_size py_iter_size collect_getitem_weight)

lemma classify_queue:
  "classify rt parsed s = Inr s' \<Longrightarrow> resource_queue s' = resource_queue s"
  unfolding classify_def
  by (auto split: sum.splits if_splits)

lemma loop_body_weight:
  "loop_body parsed s = Inr s' \<Longrightarrow>
     queue_weight (resource_queue s') \<le> queue_weight (resource_queue s) + size parsed"
  unfolding loop_body_def
  by (auto split: sum.splits if_splits dest!: bundle_resources_weight classify_queue)

function resource_loop :: "ig_state \<Rightarrow> error + ig_state" where
  "resource_loop s =
     (case resource_queue s of
        [] \<Rightarrow> Inr s
      | parsed # rest \<Rightarrow>
          (case loop_body parsed (s\<lparr>resource_queue := rest\<rparr>) of
             Inl e \<Rightarrow> Inl e
           | Inr s' \<Rightarrow> resource_loop s'))"
  by pat_completeness auto
termination
proof (relation "measure (\<lambda>s. queue_weight (resource_queue s))")
  show "wf (measure (\<lambda>s. queue_weight (resource_queue s)))"
    by simp
next
  fix s parsed rest s'
  assume "resource_queue s = parsed # rest"
    and "loop_body parsed (s\<lparr>resource_queue := rest\<rparr>) = Inr s'"
  then show "(s', s) \<in> measure (\<lambda>s. queue_weight (resource_queue s))"
    using loop_body_weight [of parsed "s\<lparr>resource_queue := rest\<rparr>" s'] by simp
qed

declare resource_loop.simps [simp del]


text \<open>
  \<^verbatim>\<open>add_igs_to_spec\<close> up to line 68: the files are read and queued, the queue is
  worked off, the counts are logged. \<open>vs\<close> and \<open>cs\<close> are the dicts of \<^verbatim>\<open>spec\<close> at
  the call. Lines 71 to 78 hand the collected \<^verbatim>\<open>profiles\<close> to \<^verbatim>\<open>fhirspec\<close>, whose
  code is not part of this package; they are left out.
\<close>

definition add_igs_to_spec ::
  "(json \<times> json) list \<Rightarrow> (json \<times> json) list \<Rightarrow> (string \<times> file_content) list \<Rightarrow>
     error + ig_state" where
  "add_igs_to_spec vs cs ig_files =
     (case enqueue_files ig_files
             \<lparr>valuesets = vs, codesystems = cs, resource_queue = [], profiles = [],
              logged = []\<rparr> of
        Inl e \<Rightarrow> Inl e
      | Inr s \<Rightarrow>
          (case resource_loop s of
             Inl e \<Rightarrow> Inl e
           | Inr s' \<Rightarrow>
               Inr (s'\<lparr>logged := logged s' @
                      [InfoFound (length (valuesets s')) (length (codesystems s'))]\<rparr>)))"


text \<open>A \<^verbatim>\<open>Bundle\<close> whose entries carry exactly the one record \<open>r\<close>.\<close>

definition holds_one :: "json \<Rightarrow> json \<Rightarrow> bool" where
  "holds_one b r \<longleftrightarrow>
     py_getitem b ''resourceType'' = Inr (JStr ''Bundle'') \<and> bundle_resources b = Inr [r]"






section \<open>fhirloader.py: strings, paths and the file system\<close>

text \<open>
  A \<^verbatim>\<open>pathlib\<close> path is the list of its \<^verbatim>\<open>parts\<close> on a POSIX system: the root
  \<^verbatim>\<open>/\<close> (or \<^verbatim>\<open>//\<close>) first when the path is absolute, then the components. Characters
  are the code points below 256. Paths are compared part by part: \<^verbatim>\<open>..\<close> components and
  symbolic links are not resolved.
\<close>

type_synonym path = "string list"

text \<open>\<^verbatim>\<open>s.split('/')\<close>.\<close>

fun split_slash :: "string \<Rightarrow> string list" where
  "split_slash [] = [[]]"
| "split_slash (c # cs) =
     (if c = CHR ''/'' then [] # split_slash cs
      else (case split_slash cs of [] \<Rightarrow> [[c]] | w # ws \<Rightarrow> (c # w) # ws))"

text \<open>The root of a path string: \<^verbatim>\<open>//\<close> for exactly two leading slashes, \<^verbatim>\<open>/\<close> for
  one or for three and more, empty for a relative path.\<close>

definition path_root :: "string \<Rightarrow> string" where
  "path_root s =
     (if take 1 s \<noteq> ''/'' then ''''
      else if take 1 (drop 1 s) \<noteq> ''/'' \<or> take 1 (drop 2 s) = ''/'' then ''/''
      else ''//'')"

text \<open>\<^verbatim>\<open>pathlib.Path(s).parts\<close>: empty components and \<^verbatim>\<open>.\<close> are dropped.\<close>

definition pure_parts :: "string \<Rightarrow> path" where
  "pure_parts s =
     (if path_root s = '''' then [] else [path_root s]) @
     filter (\<lambda>x. x \<noteq> '''' \<and> x \<noteq> ''.'') (split_slash s)"

definition is_anchor :: "path \<Rightarrow> bool" where
  "is_anchor p \<longleftrightarrow> p = [] \<or> p = [''/''] \<or> p = [''//'']"

definition is_absolute :: "path \<Rightarrow> bool" where
  "is_absolute p \<longleftrightarrow> (case p of [] \<Rightarrow> False | x # xs \<Rightarrow> x = ''/'' \<or> x = ''//'')"

text \<open>\<^verbatim>\<open>a / b\<close>: an absolute \<open>b\<close> replaces \<open>a\<close>.\<close>

definition path_join :: "path \<Rightarrow> path \<Rightarrow> path" where
  "path_join a b = (if is_absolute b then b else a @ b)"

text \<open>\<^verbatim>\<open>p.parent\<close> and \<^verbatim>\<open>p.name\<close>.\<close>

definition path_parent :: "path \<Rightarrow> path" where
  "path_parent p = (if is_anchor p then p else butlast p)"

definition path_name :: "path \<Rightarrow> string" where
  "path_name p = (if is_anchor p then '''' else last p)"

text \<open>\<^verbatim>\<open>str.isspace\<close> on a code point below 256, and whether \<^verbatim>\<open>s.strip()\<close> is a
  non-empty string.\<close>

definition is_space :: "char \<Rightarrow> bool" where
  "is_space c \<longleftrightarrow> List.member [9, 10, 11, 12, 13, 28, 29, 30, 31, 32, 133, 160] (of_char c :: nat)"

definition strip_nonempty :: "string \<Rightarrow> bool" where
  "strip_nonempty s \<longleftrightarrow> list_ex (\<lambda>c. \<not> is_space c) s"

text \<open>\<^verbatim>\<open>s.rstrip('/')\<close>.\<close>

definition rstrip_slash :: "string \<Rightarrow> string" where
  "rstrip_slash s = rev (dropWhile (\<lambda>c. c = CHR ''/'') (rev s))"

text \<open>An entry of an archive (\<^verbatim>\<open>zipfile.ZipInfo\<close>) with the bytes it unpacks to;
  \<^verbatim>\<open>is_dir()\<close> holds for a name that ends in a slash.\<close>

record zip_info =
  filename :: string
  payload :: string

definition is_dir :: "zip_info \<Rightarrow> bool" where
  "is_dir m \<longleftrightarrow> filename m \<noteq> [] \<and> last (filename m) = CHR ''/''"

text \<open>Line 102: the entries that some archiving tools add.\<close>

definition noise :: "zip_info \<Rightarrow> bool" where
  "noise m \<longleftrightarrow> prefix ''__MACOSX/'' (filename m)"

text \<open>
  The file system maps a path to what is there: a directory, or a regular file whose
  content is plain bytes or an archive with its entries. The empty path (the working
  directory) and the roots are directories.
\<close>

datatype file_data = Plain string | Zip "zip_info list"

datatype node = Directory | RegularFile file_data

type_synonym fs = "path \<Rightarrow> node option"

definition node_at :: "fs \<Rightarrow> path \<Rightarrow> node option" where
  "node_at f p = (if is_anchor p then Some Directory else f p)"

text \<open>What the program prints, logs and asks of the network and of \<^verbatim>\<open>shutil\<close>, in
  order.\<close>

datatype event =
    LogDownloading string "string option"
  | LogExtracting string
  | LogUsingCache
  | PrintUrl string
  | PrintExpanding path path
  | Fetch string path
  | Rmtree path

record world =
  files :: fs
  events :: "event list"

definition emit :: "event \<Rightarrow> world \<Rightarrow> world" where
  "emit e w = w\<lparr>events := events w @ [e]\<rparr>"

text \<open>\<^verbatim>\<open>os.mkdir(p)\<close>: the path must be free and its parent a directory.\<close>

definition os_mkdir :: "path \<Rightarrow> world \<Rightarrow> error option \<times> world" where
  "os_mkdir p w =
     (if node_at (files w) p \<noteq> None then (Some OSError, w)
      else if node_at (files w) (path_parent p) \<noteq> Some Directory then (Some OSError, w)
      else (None, w\<lparr>files := (files w)(p \<mapsto> Directory)\<rparr>))"

text \<open>
  \<^verbatim>\<open>p.mkdir(parents=True, exist_ok=...)\<close>, from the shortest ancestor to \<open>p\<close>: a missing
  one is created, a directory is passed, a regular file in the way is an \<^verbatim>\<open>OSError\<close>;
  without \<^verbatim>\<open>exist_ok\<close> so is \<open>p\<close> when it is there already. Nothing is created when the
  call fails.
\<close>

fun make_dirs :: "path list \<Rightarrow> fs \<Rightarrow> fs option" where
  "make_dirs [] f = Some f"
| "make_dirs (q # qs) f =
     (case node_at f q of
        None \<Rightarrow> make_dirs qs (f(q \<mapsto> Directory))
      | Some Directory \<Rightarrow> make_dirs qs f
      | Some (RegularFile d) \<Rightarrow> None)"

definition mkdir_parents :: "bool \<Rightarrow> path \<Rightarrow> world \<Rightarrow> error option \<times> world" where
  "mkdir_parents exist_ok p w =
     (if \<not> exist_ok \<and> node_at (files w) p \<noteq> None then (Some OSError, w)
      else (case make_dirs (prefixes p) (files w) of
              None \<Rightarrow> (Some OSError, w)
            | Some f \<Rightarrow> (None, w\<lparr>files := f\<rparr>)))"

text \<open>\<^verbatim>\<open>shutil.rmtree(p)\<close>: \<open>p\<close> must be a directory; it goes with all below it.\<close>

definition rmtree :: "path \<Rightarrow> world \<Rightarrow> error option \<times> world" where
  "rmtree p w =
     (if node_at (files w) p \<noteq> Some Directory then (Some OSError, emit (Rmtree p) w)
      else (None, (emit (Rmtree p) w)\<lparr>files := (\<lambda>q. if prefix p q then None else files w q)\<rparr>))"

text \<open>\<^verbatim>\<open>open(p, 'wb')\<close> and \<^verbatim>\<open>write\<close>: \<open>p\<close> must not be a directory and its parent must be
  one.\<close>

definition write_file :: "path \<Rightarrow> string \<Rightarrow> world \<Rightarrow> error option \<times> world" where
  "write_file p d w =
     (if node_at (files w) p = Some Directory then (Some OSError, w)
      else if node_at (files w) (path_parent p) \<noteq> Some Directory then (Some OSError, w)
      else (None, w\<lparr>files := (files w)(p \<mapsto> RegularFile (Plain d))\<rparr>))"

text \<open>A \<^verbatim>\<open>for\<close> loop whose body acts on the world: it stops at the first exception.\<close>

fun for_each :: "('a \<Rightarrow> world \<Rightarrow> error option \<times> world) \<Rightarrow> 'a list \<Rightarrow> world \<Rightarrow> error option \<times> world" where
  "for_each body [] w = (None, w)"
| "for_each body (x # xs) w =
     (case body x w of
        (Some e, w') \<Rightarrow> (Some e, w')
      | (None, w') \<Rightarrow> for_each body xs w')"

section \<open>fhirloader.py: \<^verbatim>\<open>FHIRLoader.expand\<close>\<close>

text \<open>
  \<^verbatim>\<open>ZipFile.extractall(target, members=names)\<close> of the standard library, as its
  \<^verbatim>\<open>_extract_member\<close> does it on a POSIX system. A name stands for the last entry of the
  archive with that name. The entry goes to \<open>target\<close> followed by the components of its
  name without the empty ones, \<^verbatim>\<open>.\<close> and \<^verbatim>\<open>..\<close>; missing directories above it are
  created; a directory entry is created unless it is there, any other entry is written.
\<close>

definition getinfo :: "zip_info list \<Rightarrow> string \<Rightarrow> error + zip_info" where
  "getinfo ms name =
     (case filter (\<lambda>m. filename m = name) ms of
        [] \<Rightarrow> Inl KeyError
      | x # xs \<Rightarrow> Inr (last (x # xs)))"

definition arc_parts :: "string \<Rightarrow> path" where
  "arc_parts name = filter (\<lambda>x. x \<noteq> '''' \<and> x \<noteq> ''.'' \<and> x \<noteq> ''..'') (split_slash name)"

definition extract_member :: "path \<Rightarrow> zip_info \<Rightarrow> world \<Rightarrow> error option \<times> world" where
  "extract_member target m w =
     (let targetpath = target @ arc_parts (filename m) in
      case (if node_at (files w) (path_parent targetpath) = None
            then mkdir_parents True (path_parent targetpath) w else (None, w)) of
        (Some e, w') \<Rightarrow> (Some e, w')
      | (None, w') \<Rightarrow>
          if is_dir m
          then (if node_at (files w') targetpath = Some Directory then (None, w')
                else os_mkdir targetpath w')
          else write_file targetpath (payload m) w')"

definition extractall :: "zip_info list \<Rightarrow> path \<Rightarrow> string list \<Rightarrow> world \<Rightarrow> error option \<times> world" where
  "extractall ms target names w =
     for_each
       (\<lambda>name w. case getinfo ms name of
                    Inl e \<Rightarrow> (Some e, w)
                  | Inr m \<Rightarrow> extract_member target m w)
       names w"

text \<open>Lines 106 to 110: the set of the first parts of the names that are not blank, as
  a list without repetition; \<^verbatim>\<open>parts[0]\<close> of a path with no parts is an
  \<^verbatim>\<open>IndexError\<close>.\<close>

definition first_part :: "zip_info \<Rightarrow> error + string" where
  "first_part m = (case pure_parts (filename m) of [] \<Rightarrow> Inl IndexError | x # xs \<Rightarrow> Inr x)"

definition top_level_roots :: "zip_info list \<Rightarrow> error + string list" where
  "top_level_roots real_members =
     (case collect (map first_part (filter (\<lambda>m. strip_nonempty (filename m)) real_members)) of
        Inl e \<Rightarrow> Inl e
      | Inr xs \<Rightarrow> Inr (remdups xs))"

text \<open>Lines 115 to 133: the body of the loop of the branch that strips the root.\<close>

definition strip_root_member :: "string \<Rightarrow> path \<Rightarrow> zip_info \<Rightarrow> world \<Rightarrow> error option \<times> world" where
  "strip_root_member root target m w =
     (if \<not> prefix root (filename m) then (None, w)
      else let inner_path = pure_parts (drop (length root) (filename m)) in
        if inner_path = [] then (None, w)
        else let outpath = path_join target inner_path in
          if is_dir m then mkdir_parents True outpath w
          else (case mkdir_parents True (path_parent outpath) w of
                  (Some e, w') \<Rightarrow> (Some e, w')
                | (None, w') \<Rightarrow> write_file outpath (payload m) w'))"

text \<open>Lines 98 to 139: the body of the \<^verbatim>\<open>with\<close> block, for the entries
  \<^verbatim>\<open>z.infolist()\<close> of the archive.\<close>

definition extract_members :: "zip_info list \<Rightarrow> path \<Rightarrow> world \<Rightarrow> error option \<times> world" where
  "extract_members all_members target w =
     (let real_members = filter (\<lambda>m. \<not> noise m) all_members in
      case top_level_roots real_members of
        Inl e \<Rightarrow> (Some e, w)
      | Inr roots \<Rightarrow>
          if length roots = 1
          then for_each (strip_root_member (rstrip_slash (hd roots) @ ''/'') target) real_members w
          else extractall all_members target
                 (map filename (filter (\<lambda>m. \<not> noise m) all_members)) w)"

text \<open>\<^verbatim>\<open>FHIRLoader.expand(filepath, target)\<close>.\<close>

definition expand :: "path \<Rightarrow> path \<Rightarrow> world \<Rightarrow> error option \<times> world" where
  "expand filepath target w =
     (case node_at (files w) filepath of
        Some (RegularFile d) \<Rightarrow>
          (case mkdir_parents True target (emit (PrintExpanding filepath target) w) of
             (Some e, w') \<Rightarrow> (Some e, w')
           | (None, w') \<Rightarrow>
               (case node_at (files w') filepath of
                  Some (RegularFile (Zip all_members)) \<Rightarrow> extract_members all_members target w'
                | _ \<Rightarrow> (Some BadZipFile, w')))
      | _ \<Rightarrow> (Some AssertionError, w))"

section \<open>fhirloader.py: \<^verbatim>\<open>FHIRLoader.load\<close>\<close>

text \<open>The class attribute \<^verbatim>\<open>needs\<close>: the local file, the remote file and the directory
  an archive is expanded to.\<close>

definition needs :: "(string \<times> string \<times> string option) list" where
  "needs =
     [(''version.info'', ''version.info'', None),
      (''examples-json.zip'', ''examples-json.zip'', Some ''examples''),
      (''definitions.json.zip'', ''definitions.json.zip'', Some ''definitions'')]"

text \<open>
  \<^verbatim>\<open>fhirspec.download(url, download_directory)\<close> is not code of this package: it is a
  parameter, a function from the URL, the directory and the file system to the path it
  returns (or its exception) and the file system it leaves. \<^verbatim>\<open>FHIRLoader.download\<close>
  (lines 73 to 83) prints the URL and calls it.
\<close>

type_synonym downloader = "string \<Rightarrow> path \<Rightarrow> fs \<Rightarrow> (error + path) \<times> fs"

definition download :: "downloader \<Rightarrow> string \<Rightarrow> path \<Rightarrow> string \<Rightarrow> world \<Rightarrow> (error + path) \<times> world" where
  "download dl base_url cache name w =
     (let url = base_url @ ''/'' @ name;
          w1 = emit (Fetch url cache) (emit (PrintUrl url) w)
      in case dl url cache (files w1) of (r, f) \<Rightarrow> (r, w1\<lparr>files := f\<rparr>))"

text \<open>Lines 53 to 64: a missing file is fetched and, when its name ends in
  \<^verbatim>\<open>.zip\<close>, expanded.\<close>

definition fetch_and_expand ::
  "downloader \<Rightarrow> string \<Rightarrow> path \<Rightarrow> string \<Rightarrow> string option \<Rightarrow> world \<Rightarrow> error option \<times> world" where
  "fetch_and_expand dl base_url cache remote expand_dir w =
     (case download dl base_url cache remote w of
        (Inl e, w1) \<Rightarrow> (Some e, w1)
      | (Inr filepath, w1) \<Rightarrow>
          let fname = path_name filepath in
          if drop (length fname - 4) fname = ''.zip''
          then (let w2 = emit (LogExtracting fname) w1 in
                case expand_dir of
                  None \<Rightarrow> expand filepath cache w2
                | Some d \<Rightarrow>
                    if d = '''' then expand filepath cache w2
                    else (let target = path_join cache (pure_parts d) in
                          case (if node_at (files w2) target = None then os_mkdir target w2
                                else (None, w2)) of
                            (Some e, w3) \<Rightarrow> (Some e, w3)
                          | (None, w3) \<Rightarrow> expand filepath target w3))
          else (None, w1))"

text \<open>Lines 45 to 66: the loop over \<^verbatim>\<open>needs.items()\<close>, with the flag
  \<^verbatim>\<open>uses_cache\<close>.\<close>

fun load_needs ::
  "downloader \<Rightarrow> string \<Rightarrow> path \<Rightarrow> bool \<Rightarrow> (string \<times> string \<times> string option) list \<Rightarrow> bool \<Rightarrow>
     world \<Rightarrow> (error + bool) \<times> world" where
  "load_needs dl base_url cache force_cache [] uses_cache w = (Inr uses_cache, w)"
| "load_needs dl base_url cache force_cache ((local_name, remote, expand_dir) # rest) uses_cache w =
     (if node_at (files w) (path_join cache (pure_parts local_name)) = None
      then (if force_cache
            then (Inl (PyException (''Resource missing from cache: '' @ local_name)), w)
            else (case fetch_and_expand dl base_url cache remote expand_dir
                         (emit (LogDownloading remote expand_dir) w) of
                    (Some e, w') \<Rightarrow> (Inl e, w')
                  | (None, w') \<Rightarrow> load_needs dl base_url cache force_cache rest uses_cache w'))
      else load_needs dl base_url cache force_cache rest True w)"

text \<open>\<^verbatim>\<open>FHIRLoader.load(force_download, force_cache)\<close> of a loader with the given
  downloader, \<^verbatim>\<open>base_url\<close> and \<^verbatim>\<open>cache\<close>.\<close>

definition load ::
  "downloader \<Rightarrow> string \<Rightarrow> path \<Rightarrow> bool \<Rightarrow> bool \<Rightarrow> world \<Rightarrow> (error + path) \<times> world" where
  "load dl base_url cache force_download force_cache w =
     (if force_download \<and> force_cache then (Inl AssertionError, w)
      else case (if node_at (files w) cache \<noteq> None \<and> force_download then rmtree cache w
                 else (None, w)) of
        (Some e, w1) \<Rightarrow> (Inl e, w1)
      | (None, w1) \<Rightarrow>
          (case (if node_at (files w1) cache = None then mkdir_parents False cache w1
                 else (None, w1)) of
             (Some e, w2) \<Rightarrow> (Inl e, w2)
           | (None, w2) \<Rightarrow>
               (case load_needs dl base_url cache force_cache needs False w2 of
                  (Inl e, w3) \<Rightarrow> (Inl e, w3)
                | (Inr uses_cache, w3) \<Rightarrow>
                    (Inr cache, if uses_cache then emit LogUsingCache w3 else w3))))"


section \<open>Lemmas on the queue loop\<close>






lemma resource_loop_Nil: "resource_queue s = [] \<Longrightarrow> resource_loop s = Inr s"
  by (subst resource_loop.simps) simp

lemma resource_loop_Cons:
  "resource_queue s = parsed # rest \<Longrightarrow>
     resource_loop s =
       (case loop_body parsed (s\<lparr>resource_queue := rest\<rparr>) of
          Inl e \<Rightarrow> Inl e
        | Inr s' \<Rightarrow> resource_loop s')"
  by (subst resource_loop.simps) simp

lemma bundle_turn:
  "py_getitem b ''resourceType'' = Inr (JStr ''Bundle'') \<Longrightarrow> bundle_resources b = Inr rs \<Longrightarrow>
     loop_body b s = Inr (s\<lparr>resource_queue := resource_queue s @ rs\<rparr>)"
  by (simp add: loop_body_def)

lemma holds_one_turn:
  "holds_one b r \<Longrightarrow>
     resource_loop (s\<lparr>resource_queue := [b]\<rparr>) = resource_loop (s\<lparr>resource_queue := [r]\<rparr>)"
  by (simp add: holds_one_def resource_loop_Cons [where parsed = b and rest = "[]"] bundle_turn)

lemma leaf_turn:
  assumes rt: "py_getitem leaf ''resourceType'' = Inr rt" and nb: "rt \<noteq> JStr ''Bundle''"
  shows "resource_loop (s\<lparr>resource_queue := [leaf]\<rparr>) = classify rt leaf (s\<lparr>resource_queue := []\<rparr>)"
proof (cases "classify rt leaf (s\<lparr>resource_queue := []\<rparr>)")
  case (Inl e)
  then show ?thesis
    by (simp add: resource_loop_Cons [where parsed = leaf and rest = "[]"] loop_body_def rt nb)
next
  case (Inr s')
  from classify_queue [OF Inr] have "resource_queue s' = []" by simp
  then have "resource_loop s' = Inr s'" by (rule resource_loop_Nil)
  with Inr show ?thesis
    by (simp add: resource_loop_Cons [where parsed = leaf and rest = "[]"] loop_body_def rt nb)
qed






section \<open>Claims on ig.py\<close>

subsection \<open>C1: code systems and their concept listing\<close>




subsection \<open>C2: records without a \<^verbatim>\<open>resourceType\<close>\<close>

text \<open>
  C2. A record without \<^verbatim>\<open>resourceType\<close> that is the parsed content of a file is warned
  about and skipped (second equation). The same record as the \<^verbatim>\<open>resource\<close> of an entry of
  a \<^verbatim>\<open>Bundle\<close> is put on the queue unchecked by line 48, and line 44 raises
  \<^verbatim>\<open>KeyError\<close> when its turn comes (first equation): there the condition is fatal.
\<close>

theorem nested_record_without_resourceType_raises:
  "add_igs_to_spec [] []
     [(''bundle.json'',
       Parsed (JObj [(''resourceType'', JStr ''Bundle''),
                     (''entry'', JArr [JObj [(''resource'', JObj [(''id'', JStr ''x'')])]])]))] =
   Inl KeyError \<and>
   add_igs_to_spec [] [] [(''loose.json'', Parsed (JObj [(''id'', JStr ''x'')]))] =
   Inr \<lparr>valuesets = [], codesystems = [], resource_queue = [], profiles = [],
        logged = [WarnNoResourceType ''loose.json'', InfoFound 0 0]\<rparr>"
  by code_simp

subsection \<open>C3: a file that is not JSON\<close>




subsection \<open>C7: three nested bundles\<close>

text \<open>
  C7. Let \<open>b1\<close> be a \<^verbatim>\<open>Bundle\<close> whose only entry carries the \<^verbatim>\<open>Bundle\<close> \<open>b2\<close>, whose
  only entry carries the \<^verbatim>\<open>Bundle\<close> \<open>b3\<close>, whose only entry carries \<open>leaf\<close>. From any
  state, working off the queue that holds \<open>b1\<close> gives what working off the queue that
  holds \<open>leaf\<close> alone gives; and when \<open>leaf\<close> has a \<^verbatim>\<open>resourceType\<close> other than
  \<^verbatim>\<open>Bundle\<close>, that is one classification of \<open>leaf\<close> and nothing else: the leaf reaches
  the classifying branches exactly once and no bundle ever does.
\<close>

theorem nested_bundle_yields_leaf_once:
  assumes "holds_one b1 b2" and "holds_one b2 b3" and "holds_one b3 leaf"
  shows "resource_loop (s\<lparr>resource_queue := [b1]\<rparr>) = resource_loop (s\<lparr>resource_queue := [leaf]\<rparr>) \<and>
         (\<forall>rt. py_getitem leaf ''resourceType'' = Inr rt \<longrightarrow> rt \<noteq> JStr ''Bundle'' \<longrightarrow>
            resource_loop (s\<lparr>resource_queue := [b1]\<rparr>) = classify rt leaf (s\<lparr>resource_queue := []\<rparr>))"
proof -
  have "resource_loop (s\<lparr>resource_queue := [b1]\<rparr>) = resource_loop (s\<lparr>resource_queue := [b2]\<rparr>)"
    using assms(1) by (rule holds_one_turn)
  also have "\<dots> = resource_loop (s\<lparr>resource_queue := [b3]\<rparr>)"
    using assms(2) by (rule holds_one_turn)
  also have "\<dots> = resource_loop (s\<lparr>resource_queue := [leaf]\<rparr>)"
    using assms(3) by (rule holds_one_turn)
  finally have eq: "resource_loop (s\<lparr>resource_queue := [b1]\<rparr>) = resource_loop (s\<lparr>resource_queue := [leaf]\<rparr>)" .
  then show ?thesis
    by (simp add: leaf_turn)
qed

theorem nested_bundle_yields_leaf_once_witness:
  "(let leaf = JObj [(''resourceType'', JStr ''StructureDefinition''), (''name'', JStr ''P'')];
        b3 = JObj [(''resourceType'', JStr ''Bundle''), (''entry'', JArr [JObj [(''resource'', leaf)]])];
        b2 = JObj [(''resourceType'', JStr ''Bundle''), (''entry'', JArr [JObj [(''resource'', b3)]])];
        b1 = JObj [(''resourceType'', JStr ''Bundle''), (''entry'', JArr [JObj [(''resource'', b2)]])];
        s = \<lparr>valuesets = [], codesystems = [], resource_queue = [], profiles = [], logged = []\<rparr>
    in holds_one b1 b2 \<and> holds_one b2 b3 \<and> holds_one b3 leaf \<and>
       resource_loop (s\<lparr>resource_queue := [b1]\<rparr>) = Inr (s\<lparr>profiles := [leaf]\<rparr>))"
proof -
  define leaf where "leaf = JObj [(''resourceType'', JStr ''StructureDefinition''), (''name'', JStr ''P'')]"
  define b3 where "b3 = JObj [(''resourceType'', JStr ''Bundle''), (''entry'', JArr [JObj [(''resource'', leaf)]])]"
  define b2 where "b2 = JObj [(''resourceType'', JStr ''Bundle''), (''entry'', JArr [JObj [(''resource'', b3)]])]"
  define b1 where "b1 = JObj [(''resourceType'', JStr ''Bundle''), (''entry'', JArr [JObj [(''resource'', b2)]])]"
  define s where "s = \<lparr>valuesets = [], codesystems = [], resource_queue = [], profiles = [], logged = []\<rparr>"
  have h1: "holds_one b1 b2" and h2: "holds_one b2 b3" and h3: "holds_one b3 leaf"
    by (simp_all add: holds_one_def bundle_resources_def b1_def b2_def b3_def)
  have rt: "py_getitem leaf ''resourceType'' = Inr (JStr ''StructureDefinition'')"
    by (simp add: leaf_def)
  have nb: "JStr ''StructureDefinition'' \<noteq> JStr ''Bundle''"
    by simp
  from nested_bundle_yields_leaf_once [OF h1 h2 h3, of s] rt nb
  have "resource_loop (s\<lparr>resource_queue := [b1]\<rparr>) =
          classify (JStr ''StructureDefinition'') leaf (s\<lparr>resource_queue := []\<rparr>)"
    by blast
  also have "\<dots> = Inr (s\<lparr>profiles := [leaf]\<rparr>)"
    by (simp add: classify_def s_def)
  finally show ?thesis
    using h1 h2 h3
    unfolding Let_def leaf_def [symmetric] b3_def [symmetric] b2_def [symmetric]
      b1_def [symmetric] s_def [symmetric]
    by simp
qed

subsection \<open>C8: the queue loop terminates\<close>



section \<open>Lemmas on the cache and on extraction\<close>

lemma load_needs_all_cached:
  "list_all (\<lambda>n. node_at (files w) (path_join cache (pure_parts (fst n))) \<noteq> None) ns \<Longrightarrow>
     load_needs dl base_url cache force_cache ns uses_cache w = (Inr (uses_cache \<or> ns \<noteq> []), w)"
proof (induction ns arbitrary: uses_cache)
  case Nil
  then show ?case by simp
next
  case (Cons n ns)
  obtain local_name remote expand_dir where n: "n = (local_name, remote, expand_dir)"
    by (cases n)
  from Cons.prems n have here: "node_at (files w) (path_join cache (pure_parts local_name)) \<noteq> None"
    and rest: "list_all (\<lambda>n. node_at (files w) (path_join cache (pure_parts (fst n))) \<noteq> None) ns"
    by simp_all
  from Cons.IH [OF rest, of True] here show ?case
    by (auto simp: n)
qed

lemma split_slash_no_slash: "CHR ''/'' \<notin> set s \<Longrightarrow> split_slash s = [s]"
  by (induction s) auto

lemma strip_nonempty_not_Nil: "strip_nonempty s \<Longrightarrow> s \<noteq> []"
  by (auto simp: strip_nonempty_def)

lemma pure_parts_plain_name:
  assumes "CHR ''/'' \<notin> set s" and "s \<noteq> []" and "s \<noteq> ''.''"
  shows "pure_parts s = [s]"
proof -
  from assms(1,2) have "take 1 s \<noteq> ''/''"
    by (cases s) auto
  then have "path_root s = []" by (simp add: path_root_def)
  with assms show ?thesis
    by (simp add: pure_parts_def split_slash_no_slash)
qed

lemma rstrip_slash_no_slash: "CHR ''/'' \<notin> set s \<Longrightarrow> rstrip_slash s = s"
proof -
  assume no: "CHR ''/'' \<notin> set s"
  have "rev s = [] \<or> hd (rev s) \<noteq> CHR ''/''"
  proof (cases "rev s")
    case Nil
    then show ?thesis by simp
  next
    case (Cons c cs)
    then have "c \<in> set (rev s)" by simp
    then have "c \<in> set s" by simp
    with no have "c \<noteq> CHR ''/''" by blast
    with Cons show ?thesis by simp
  qed
  then have "dropWhile (\<lambda>c. c = CHR ''/'') (rev s) = rev s"
    by (simp add: dropWhile_eq_self_iff)
  then show ?thesis by (simp add: rstrip_slash_def)
qed

lemma not_prefix_longer: "\<not> prefix (s @ [c]) s"
  by (auto dest: prefix_length_le)

lemma lone_top_level_file_is_dropped:
  assumes sole: "filter (\<lambda>m. \<not> noise m) ms = [m]"
    and plain: "CHR ''/'' \<notin> set (filename m)"
    and nonblank: "strip_nonempty (filename m)"
    and nodot: "filename m \<noteq> ''.''"
  shows "extract_members ms target w = (None, w)"
proof -
  from nonblank have ne: "filename m \<noteq> []" by (rule strip_nonempty_not_Nil)
  from plain ne nodot have "pure_parts (filename m) = [filename m]"
    by (rule pure_parts_plain_name)
  then have "first_part m = Inr (filename m)" by (simp add: first_part_def)
  with nonblank have roots: "top_level_roots [m] = Inr [filename m]"
    by (simp add: top_level_roots_def)
  have "\<not> prefix (rstrip_slash (filename m) @ ''/'') (filename m)"
    using plain by (simp add: rstrip_slash_no_slash not_prefix_longer)
  then have "strip_root_member (rstrip_slash (filename m) @ ''/'') target m w = (None, w)"
    by (simp add: strip_root_member_def)
  with sole roots show ?thesis
    by (simp add: extract_members_def)
qed

lemma node_at_None: "node_at f q = None \<Longrightarrow> f q = None"
  by (simp add: node_at_def split: if_splits)

lemma node_at_file: "node_at f p = Some (RegularFile d) \<Longrightarrow> f p = Some (RegularFile d) \<and> \<not> is_anchor p"
  by (simp add: node_at_def split: if_splits)

lemma make_dirs_keeps: "make_dirs qs f = Some f' \<Longrightarrow> f p = Some n \<Longrightarrow> f' p = Some n"
proof (induction qs arbitrary: f)
  case Nil
  then show ?case by simp
next
  case (Cons q qs)
  show ?case
  proof (cases "node_at f q")
    case None
    then have "f q = None" by (rule node_at_None)
    with Cons.prems(2) have "(f(q \<mapsto> Directory)) p = Some n" by auto
    moreover from Cons.prems(1) None have "make_dirs qs (f(q \<mapsto> Directory)) = Some f'" by simp
    ultimately show ?thesis by (rule Cons.IH [rotated])
  next
    case (Some nd)
    with Cons.prems(1) have "make_dirs qs f = Some f'"
      by (cases nd) simp_all
    from Cons.IH [OF this Cons.prems(2)] show ?thesis .
  qed
qed

lemma mkdir_parents_keeps:
  "mkdir_parents ok q w = (r, w') \<Longrightarrow> files w p = Some n \<Longrightarrow> files w' p = Some n"
  by (auto simp: mkdir_parents_def split: if_splits option.splits dest: make_dirs_keeps)

lemma mkdir_parents_node:
  "mkdir_parents ok q w = (r, w') \<Longrightarrow> node_at (files w) p = Some (RegularFile d) \<Longrightarrow>
     node_at (files w') p = Some (RegularFile d)"
proof -
  assume run: "mkdir_parents ok q w = (r, w')" and nd: "node_at (files w) p = Some (RegularFile d)"
  from node_at_file [OF nd] have "files w p = Some (RegularFile d)" and na: "\<not> is_anchor p"
    by simp_all
  from mkdir_parents_keeps [OF run this(1)] na show ?thesis
    by (simp add: node_at_def)
qed

lemma expand_of_archive:
  assumes zip: "node_at (files w) filepath = Some (RegularFile (Zip ms))"
    and noop: "\<And>w'. extract_members ms target w' = (None, w')"
  shows "expand filepath target w = mkdir_parents True target (emit (PrintExpanding filepath target) w)"
proof (cases "mkdir_parents True target (emit (PrintExpanding filepath target) w)")
  case (Pair r w')
  from zip have zip': "node_at (files (emit (PrintExpanding filepath target) w)) filepath =
      Some (RegularFile (Zip ms))"
    by (simp add: emit_def)
  show ?thesis
  proof (cases r)
    case None
    with Pair mkdir_parents_node [OF _ zip'] have "node_at (files w') filepath = Some (RegularFile (Zip ms))"
      by blast
    with Pair None zip show ?thesis
      by (simp add: expand_def noop)
  next
    case (Some e)
    with Pair zip show ?thesis by (simp add: expand_def)
  qed
qed

lemma for_each_cong:
  "(\<And>x w. x \<in> set xs \<Longrightarrow> f x w = g x w) \<Longrightarrow> for_each f xs w = for_each g xs w"
proof (induction xs arbitrary: w)
  case Nil
  then show ?case by simp
next
  case (Cons x xs)
  have "f x w = g x w" by (rule Cons.prems) simp
  moreover have "\<And>w'. for_each f xs w' = for_each g xs w'"
    by (rule Cons.IH) (simp add: Cons.prems)
  ultimately show ?case
    by (simp split: prod.splits option.splits)
qed

lemma getinfo_without_noise:
  assumes "\<not> prefix ''__MACOSX/'' name"
  shows "getinfo (filter (\<lambda>m. \<not> noise m) ms) name = getinfo ms name"
proof -
  have "filter (\<lambda>m. filename m = name) (filter (\<lambda>m. \<not> noise m) ms) =
        filter (\<lambda>m. filename m = name) ms"
    using assms by (induction ms) (auto simp: noise_def)
  then show ?thesis by (simp add: getinfo_def)
qed

lemma extractall_without_noise:
  "extractall (filter (\<lambda>m. \<not> noise m) ms) target (map filename (filter (\<lambda>m. \<not> noise m) ms)) w =
   extractall ms target (map filename (filter (\<lambda>m. \<not> noise m) ms)) w"
  unfolding extractall_def
proof (rule for_each_cong)
  fix name w'
  assume "name \<in> set (map filename (filter (\<lambda>m. \<not> noise m) ms))"
  then have "\<not> prefix ''__MACOSX/'' name"
    by (auto simp: noise_def)
  then have "getinfo (filter (\<lambda>m. \<not> noise m) ms) name = getinfo ms name"
    by (rule getinfo_without_noise)
  then show "(case getinfo (filter (\<lambda>m. \<not> noise m) ms) name of
                Inl e \<Rightarrow> (Some e, w')
              | Inr m \<Rightarrow> extract_member target m w') =
             (case getinfo ms name of
                Inl e \<Rightarrow> (Some e, w')
              | Inr m \<Rightarrow> extract_member target m w')"
    by simp
qed

lemma extract_members_only_noise:
  "filter (\<lambda>m. \<not> noise m) ms = [] \<Longrightarrow> extract_members ms target w = (None, w)"
  by (simp add: extract_members_def top_level_roots_def extractall_def)
















section \<open>Claims on fhirloader.py\<close>

subsection \<open>C4: stripping the single root\<close>




subsection \<open>C5: a full cache\<close>

text \<open>
  C5. When the cache directory is there and holds every file of \<^verbatim>\<open>needs\<close>, \<^verbatim>\<open>load\<close>
  with neither flag set returns the cache directory and leaves the world as it was but
  for one message more, the notice that cached resources were used: the file system is
  unchanged, nothing is fetched and nothing is removed, whatever the downloader would
  do. The loop over the entries does so for every table of entries in place of
  \<^verbatim>\<open>needs\<close> whose files are all there: it leaves the world as it is and sets
  \<^verbatim>\<open>uses_cache\<close> as soon as the table has an entry.
\<close>

theorem load_full_cache_idempotent:
  assumes cache: "node_at (files w) cache \<noteq> None"
    and full: "list_all (\<lambda>n. node_at (files w) (path_join cache (pure_parts (fst n))) \<noteq> None) needs"
  shows "load dl base_url cache False False w = (Inr cache, emit LogUsingCache w) \<and>
         (\<forall>ns :: (string \<times> string \<times> string option) list.
            list_all (\<lambda>n. node_at (files w) (path_join cache (pure_parts (fst n))) \<noteq> None) ns \<longrightarrow>
            load_needs dl base_url cache False ns False w = (Inr (ns \<noteq> []), w))"
proof (intro conjI allI impI)
  have "needs \<noteq> []" by (simp add: needs_def)
  with load_needs_all_cached [OF full, of dl base_url False False]
  have "load_needs dl base_url cache False needs False w = (Inr True, w)" by simp
  with cache show "load dl base_url cache False False w = (Inr cache, emit LogUsingCache w)"
    by (auto simp: load_def)
next
  fix ns :: "(string \<times> string \<times> string option) list"
  assume "list_all (\<lambda>n. node_at (files w) (path_join cache (pure_parts (fst n))) \<noteq> None) ns"
  from load_needs_all_cached [OF this, of dl base_url False False]
  show "load_needs dl base_url cache False ns False w = (Inr (ns \<noteq> []), w)" by simp
qed

theorem load_full_cache_idempotent_witness:
  "(let w = \<lparr>files = [[''cache''] \<mapsto> Directory,
                      [''cache'', ''version.info''] \<mapsto> RegularFile (Plain ''4.0.1''),
                      [''cache'', ''examples-json.zip''] \<mapsto> RegularFile (Zip []),
                      [''cache'', ''definitions.json.zip''] \<mapsto> RegularFile (Zip [])],
               events = []\<rparr>;
        dl = (\<lambda>url dir f. (Inl DownloadError, f))
    in node_at (files w) [''cache''] \<noteq> None \<and>
       list_all (\<lambda>n. node_at (files w) (path_join [''cache''] (pure_parts (fst n))) \<noteq> None) needs \<and>
       load dl ''http://hl7.org/fhir'' [''cache''] False False w = (Inr [''cache''], w\<lparr>events := [LogUsingCache]\<rparr>) \<and>
       load_needs dl ''http://hl7.org/fhir'' [''cache''] False needs False w = (Inr True, w))"
proof -
  define w where "w = \<lparr>files = [[''cache''] \<mapsto> Directory,
                      [''cache'', ''version.info''] \<mapsto> RegularFile (Plain ''4.0.1''),
                      [''cache'', ''examples-json.zip''] \<mapsto> RegularFile (Zip []),
                      [''cache'', ''definitions.json.zip''] \<mapsto> RegularFile (Zip [])],
               events = []\<rparr>"
  have c: "node_at (files w) [''cache''] \<noteq> None"
    by (simp add: w_def node_at_def is_anchor_def)
  have f: "list_all (\<lambda>n. node_at (files w) (path_join [''cache''] (pure_parts (fst n))) \<noteq> None) needs"
    by (simp add: w_def needs_def node_at_def is_anchor_def path_join_def is_absolute_def
          pure_parts_def path_root_def)
  have ne: "needs \<noteq> []" by (simp add: needs_def)
  from load_full_cache_idempotent [OF c f, of "\<lambda>url dir f. (Inl DownloadError, f)" "''http://hl7.org/fhir''"] f ne
  have l: "load (\<lambda>url dir f. (Inl DownloadError, f)) ''http://hl7.org/fhir'' [''cache''] False False w =
             (Inr [''cache''], emit LogUsingCache w)"
    and n: "load_needs (\<lambda>url dir f. (Inl DownloadError, f)) ''http://hl7.org/fhir'' [''cache''] False needs False w =
             (Inr True, w)"
    by auto
  from c f l n show ?thesis
    unfolding Let_def w_def [symmetric] by (simp add: emit_def w_def)
qed

subsection \<open>C6: both flags set\<close>

text \<open>
  C6. With \<^verbatim>\<open>force_download\<close> and \<^verbatim>\<open>force_cache\<close> both set, \<^verbatim>\<open>load\<close> raises the
  \<^verbatim>\<open>AssertionError\<close> of line 33 and the world is as it was: no directory is removed or
  created, no file is written, nothing is fetched, printed or logged.
\<close>

theorem load_conflicting_flags_fail_first:
  "load dl base_url cache True True w = (Inl AssertionError, w)"
  by (simp add: load_def)

subsection \<open>C9: the noise entries\<close>

text \<open>
  C9. Whatever the archive and whichever branch is taken, the entries whose names begin
  with \<^verbatim>\<open>__MACOSX/\<close> have no part in the extraction: it does to the world what the
  extraction of the archive without them does, and an archive of such entries only
  leaves the world as it is.
\<close>

theorem noise_entries_never_extracted:
  "extract_members ms target w = extract_members (filter (\<lambda>m. \<not> noise m) ms) target w \<and>
   (list_all noise ms \<longrightarrow> extract_members ms target w = (None, w))"
proof
  have idem: "filter (\<lambda>m. \<not> noise m) (filter (\<lambda>m. \<not> noise m) ms) = filter (\<lambda>m. \<not> noise m) ms"
    by simp
  show "extract_members ms target w = extract_members (filter (\<lambda>m. \<not> noise m) ms) target w"
    unfolding extract_members_def Let_def idem extractall_without_noise ..
next
  show "list_all noise ms \<longrightarrow> extract_members ms target w = (None, w)"
  proof
    assume "list_all noise ms"
    then have "filter (\<lambda>m. \<not> noise m) ms = []"
      by (induction ms) auto
    then show "extract_members ms target w = (None, w)"
      by (rule extract_members_only_noise)
  qed
qed

theorem noise_entries_never_extracted_witness:
  "(let ms = [\<lparr>filename = ''__MACOSX/'', payload = ''''\<rparr>,
              \<lparr>filename = ''__MACOSX/._a.json'', payload = ''x''\<rparr>];
        w = \<lparr>files = [[''t''] \<mapsto> Directory], events = []\<rparr>
    in list_all noise ms \<and> extract_members ms [''t''] w = (None, w))"
proof -
  define ms where "ms = [\<lparr>filename = ''__MACOSX/'', payload = ''''\<rparr>,
              \<lparr>filename = ''__MACOSX/._a.json'', payload = ''x''\<rparr>]"
  define w where "w = \<lparr>files = [[''t''] \<mapsto> Directory], events = []\<rparr>"
  have all: "list_all noise ms"
    by (simp add: ms_def noise_def)
  with noise_entries_never_extracted [of ms "[''t'']" w]
  have "extract_members ms [''t''] w = (None, w)"
    by blast
  with all show ?thesis
    unfolding Let_def ms_def [symmetric] w_def [symmetric] by simp
qed

subsection \<open>C10: a single file at the top level\<close>

text \<open>
  C10, as stated, fails. The archive whose only entry is the regular file named by one
  space has no path separator in that name; line 109 leaves the blank name out of the
  roots, no root is found, the other branch is taken and the file is written under the
  target.
\<close>

theorem blank_top_level_file_is_written:
  "(let ms = [\<lparr>filename = '' '', payload = ''x''\<rparr>];
        w = \<lparr>files = [[''t''] \<mapsto> Directory], events = []\<rparr>
    in filter (\<lambda>m. \<not> noise m) ms = ms \<and> CHR ''/'' \<notin> set '' '' \<and>
       fst (extract_members ms [''t''] w) = None \<and>
       files (snd (extract_members ms [''t''] w)) [''t'', '' ''] = Some (RegularFile (Plain ''x'')))"
  by code_simp

text \<open>
  C10, amended. For every archive whose only entry that is not noise has a name without
  a path separator that is not blank and is not \<^verbatim>\<open>.\<close>, the branch that strips the root is
  taken with the root \<open>name/\<close>, the entry does not begin with it, and the extraction
  leaves the world as it is; \<^verbatim>\<open>expand\<close> of a file holding such an archive does what
  creating the target directory does, and no more.
\<close>

theorem lone_top_level_file_writes_nothing:
  assumes sole: "filter (\<lambda>m. \<not> noise m) ms = [m]"
    and plain: "CHR ''/'' \<notin> set (filename m)"
    and nonblank: "strip_nonempty (filename m)"
    and nodot: "filename m \<noteq> ''.''"
  shows "extract_members ms target w = (None, w) \<and>
         (node_at (files w) filepath = Some (RegularFile (Zip ms)) \<longrightarrow>
            expand filepath target w =
              mkdir_parents True target (emit (PrintExpanding filepath target) w))"
  using assms expand_of_archive [of w filepath ms target]
    lone_top_level_file_is_dropped [of ms m]
  by blast

theorem lone_top_level_file_writes_nothing_witness:
  "(let m = \<lparr>filename = ''README.txt'', payload = ''hello''\<rparr>;
        ms = [\<lparr>filename = ''__MACOSX/._README.txt'', payload = ''x''\<rparr>, m];
        w = \<lparr>files = [[''a.zip''] \<mapsto> RegularFile (Zip ms)], events = []\<rparr>
    in filter (\<lambda>m. \<not> noise m) ms = [m] \<and> CHR ''/'' \<notin> set (filename m) \<and>
       strip_nonempty (filename m) \<and> filename m \<noteq> ''.'' \<and>
       node_at (files w) [''a.zip''] = Some (RegularFile (Zip ms)) \<and>
       extract_members ms [''t''] w = (None, w) \<and>
       fst (expand [''a.zip''] [''t''] w) = None \<and>
       files (snd (expand [''a.zip''] [''t''] w)) [''t''] = Some Directory \<and>
       files (snd (expand [''a.zip''] [''t''] w)) [''t'', ''README.txt''] = None)"
proof -
  define m where "m = \<lparr>filename = ''README.txt'', payload = ''hello''\<rparr>"
  define ms where "ms = [\<lparr>filename = ''__MACOSX/._README.txt'', payload = ''x''\<rparr>, m]"
  define w where "w = \<lparr>files = [[''a.zip''] \<mapsto> RegularFile (Zip ms)], events = []\<rparr>"
  have sole: "filter (\<lambda>m. \<not> noise m) ms = [m]"
    by (simp add: ms_def m_def noise_def)
  have plain: "CHR ''/'' \<notin> set (filename m)"
    by (simp add: m_def)
  have nonblank: "strip_nonempty (filename m)"
    by (simp add: m_def strip_nonempty_def is_space_def)
  have nodot: "filename m \<noteq> ''.''"
    by (simp add: m_def)
  have zip: "node_at (files w) [''a.zip''] = Some (RegularFile (Zip ms))"
    by (simp add: w_def node_at_def is_anchor_def)
  from lone_top_level_file_writes_nothing [OF sole plain nonblank nodot, of "[''t'']" w "[''a.zip'']"] zip
  have ex: "extract_members ms [''t''] w = (None, w)"
    and exp: "expand [''a.zip''] [''t''] w =
       mkdir_parents True [''t''] (emit (PrintExpanding [''a.zip''] [''t'']) w)"
    by blast+
  have mk: "mkdir_parents True [''t''] (emit (PrintExpanding [''a.zip''] [''t'']) w) =
      (None, (emit (PrintExpanding [''a.zip''] [''t'']) w)\<lparr>files := (files w)([''t''] \<mapsto> Directory)\<rparr>)"
    by (simp add: mkdir_parents_def emit_def w_def node_at_def is_anchor_def)
  have r1: "fst (expand [''a.zip''] [''t''] w) = None"
    and r2: "files (snd (expand [''a.zip''] [''t''] w)) [''t''] = Some Directory"
    and r3: "files (snd (expand [''a.zip''] [''t''] w)) [''t'', ''README.txt''] = None"
    unfolding exp mk by (simp_all add: w_def)
  from sole plain nonblank nodot zip ex r1 r2 r3 show ?thesis
    unfolding Let_def m_def [symmetric] ms_def [symmetric] w_def [symmetric] by simp
qed

end
